theory Spec2Isabelle
  imports Main
begin

section \<open>Role store (sgpt/role.py)\<close>

text \<open>
  Python strings are modelled as \<open>string\<close> (lists of 8-bit characters, standing for
  the code points below 256). An exception raised by the source is a value of
  \<open>error\<close>; a function that may raise returns \<open>error + 'a\<close>.
\<close>

datatype error =
    BadArgumentUsage string   \<comment> \<open>\<open>Role "name" not found.\<close>\<close>
  | Abort                     \<comment> \<open>\<open>typer.confirm(..., abort=True)\<close> declined\<close>
  | KeyError string
  | IndexError
  | ValueError
  | Unsupported               \<comment> \<open>format syntax outside the modelled fragment of \<open>str.format\<close>\<close>

text \<open>
  An instance of the class \<open>SystemRole\<close>: its \<open>__dict__\<close> holds exactly the
  attributes \<open>name\<close> and \<open>role\<close>.
\<close>

record SystemRole =
  name :: string
  role :: string

text \<open>
  The storage directory, as the paths under it are seen: a map from the path
  \<open>{name}.json\<close> to the contents of the file there. \<open>_save\<close> writes
  \<open>json.dumps(self.__dict__)\<close> and \<open>get\<close> reads it back with \<open>json.loads\<close>; a
  file is modelled by the JSON object it holds, the pair of \<open>name\<close> and \<open>role\<close>.
  Two files have equal bytes exactly when they hold equal objects.
\<close>

type_synonym storage = "string \<rightharpoonup> SystemRole"

text \<open>\<open>_file_path\<close>: \<open>self.storage / f"{self.name}.json"\<close>.\<close>

definition file_path :: "string \<Rightarrow> string" where
  "file_path n = n @ ''.json''"

text \<open>
  A name whose file lies in the storage directory itself and can be created there, on a
  POSIX file system: no path separator, no NUL, and a file name of at most 255 bytes
  (a character from 128 on takes two bytes in UTF-8). For another name the path
  \<open>storage / f"{name}.json"\<close> leaves the directory or cannot be opened: with
  \<open>a/b\<close>, \<open>write_text\<close> raises FileNotFoundError and nothing is stored.
\<close>

definition utf8_length :: "string \<Rightarrow> nat" where
  "utf8_length s = sum_list (map (\<lambda>c. if (of_char c :: nat) < 128 then 1 else 2) s)"

definition plain_file_name :: "string \<Rightarrow> bool" where
  "plain_file_name n =
     (CHR ''/'' \<notin> set n \<and> CHR 0x00 \<notin> set n \<and> utf8_length (file_path n) \<le> 255)"

text \<open>\<open>_exists\<close>: \<open>self._file_path.exists()\<close>.\<close>

definition exists_role :: "storage \<Rightarrow> SystemRole \<Rightarrow> bool" where
  "exists_role st r = (st (file_path (name r)) \<noteq> None)"

text \<open>\<open>ROLE_TEMPLATE = "You are {name}\n{role}"\<close>.\<close>

definition ROLE_TEMPLATE :: string where
  "ROLE_TEMPLATE = ''You are {name}\<newline>{role}''"

subsection \<open>\<open>str.format\<close> with keyword arguments\<close>

text \<open>
  \<open>template.format(**variables)\<close> scans the template from left to right. Literal text
  is copied, \<open>{{\<close> and \<open>}}\<close> stand for one brace, a single \<open>}\<close> or a \<open>{\<close> at the
  end raises ValueError, and \<open>{field}\<close> is replaced by the value of the keyword
  argument \<open>field\<close> (KeyError when the mapping lacks it; IndexError for the empty
  field, which asks for a positional argument and none is passed). The text of a value
  is not scanned again. The first error ends the scan.

  A field made of digits asks for a positional argument too and raises IndexError,
  whatever the mapping binds.

  The fragment modelled is the one the templates of this module use: plain field names.
  A field that uses an attribute, an index, a conversion or a format specification (one
  of \<open>. [ ! :\<close>), or a number of more than nine digits (the index may overflow),
  gives \<open>Unsupported\<close>: the model makes no statement about such a template from that
  field on.
\<close>

definition is_digit :: "char \<Rightarrow> bool" where
  "is_digit c = (c \<in> set ''0123456789'')"

definition lookup_field :: "(string \<times> string) list \<Rightarrow> string \<Rightarrow> error + string" where
  "lookup_field vs f =
     (if f = [] then Inl IndexError
      else if list_all is_digit f then
        (if length f \<le> 9 then Inl IndexError else Inl Unsupported)
      else (case map_of vs f of None \<Rightarrow> Inl (KeyError f) | Some v \<Rightarrow> Inr v))"

definition prepend :: "string \<Rightarrow> error + string \<Rightarrow> error + string" where
  "prepend s r = (case r of Inl e \<Rightarrow> Inl e | Inr t \<Rightarrow> Inr (s @ t))"

text \<open>
  \<open>format_text\<close> scans literal text; \<open>format_field vs acc cs\<close> scans a field whose
  name read so far is \<open>rev acc\<close>.
\<close>

fun format_text :: "(string \<times> string) list \<Rightarrow> string \<Rightarrow> error + string"
  and format_field :: "(string \<times> string) list \<Rightarrow> string \<Rightarrow> string \<Rightarrow> error + string"
where
  "format_text vs [] = Inr []"
| "format_text vs (c # cs) =
     (if c = CHR ''{'' then
        (case cs of
           [] \<Rightarrow> Inl ValueError
         | d # ds \<Rightarrow> if d = CHR ''{'' then prepend [c] (format_text vs ds)
                     else format_field vs [] cs)
      else if c = CHR ''}'' then
        (case cs of
           [] \<Rightarrow> Inl ValueError
         | d # ds \<Rightarrow> if d = CHR ''}'' then prepend [c] (format_text vs ds)
                     else Inl ValueError)
      else prepend [c] (format_text vs cs))"
| "format_field vs acc [] = Inl ValueError"
| "format_field vs acc (c # cs) =
     (if c = CHR ''}'' then
        (case lookup_field vs (rev acc) of
           Inl e \<Rightarrow> Inl e
         | Inr v \<Rightarrow> prepend v (format_text vs cs))
      else if c = CHR ''{'' then Inl ValueError
      else if c \<in> set ''.[!:'' then Inl Unsupported
      else format_field vs (c # acc) cs)"

text \<open>
  The names of the plain fields of a template, in the order of the scan, up to the first
  place where the scan stops whatever the mapping is.
\<close>

fun fields_text :: "string \<Rightarrow> string list"
  and fields_field :: "string \<Rightarrow> string \<Rightarrow> string list"
where
  "fields_text [] = []"
| "fields_text (c # cs) =
     (if c = CHR ''{'' then
        (case cs of
           [] \<Rightarrow> []
         | d # ds \<Rightarrow> if d = CHR ''{'' then fields_text ds else fields_field [] cs)
      else if c = CHR ''}'' then
        (case cs of
           [] \<Rightarrow> []
         | d # ds \<Rightarrow> if d = CHR ''}'' then fields_text ds else [])
      else fields_text cs)"
| "fields_field acc [] = []"
| "fields_field acc (c # cs) =
     (if c = CHR ''}'' then
        (if rev acc = [] \<or> list_all is_digit (rev acc) then []
         else rev acc # fields_text cs)
      else if c = CHR ''{'' then []
      else if c \<in> set ''.[!:'' then []
      else fields_field (c # acc) cs)"

text \<open>
  Whether the scan of a template reaches its end when every field it names is bound:
  no single brace, no unclosed field and no field outside the modelled fragment.
\<close>

fun wf_text :: "string \<Rightarrow> bool"
  and wf_field :: "string \<Rightarrow> string \<Rightarrow> bool"
where
  "wf_text [] = True"
| "wf_text (c # cs) =
     (if c = CHR ''{'' then
        (case cs of
           [] \<Rightarrow> False
         | d # ds \<Rightarrow> if d = CHR ''{'' then wf_text ds else wf_field [] cs)
      else if c = CHR ''}'' then
        (case cs of
           [] \<Rightarrow> False
         | d # ds \<Rightarrow> if d = CHR ''}'' then wf_text ds else False)
      else wf_text cs)"
| "wf_field acc [] = False"
| "wf_field acc (c # cs) =
     (if c = CHR ''}'' then
        (if rev acc = [] \<or> list_all is_digit (rev acc) then False
         else wf_text cs)
      else if c = CHR ''{'' then False
      else if c \<in> set ''.[!:'' then False
      else wf_field (c # acc) cs)"

text \<open>
  Whether the scan stays inside the modelled fragment: it never meets a field that gives
  \<open>Unsupported\<close>, whatever the mapping is.
\<close>

fun supported_text :: "string \<Rightarrow> bool"
  and supported_field :: "string \<Rightarrow> string \<Rightarrow> bool"
where
  "supported_text [] = True"
| "supported_text (c # cs) =
     (if c = CHR ''{'' then
        (case cs of
           [] \<Rightarrow> True
         | d # ds \<Rightarrow> if d = CHR ''{'' then supported_text ds else supported_field [] cs)
      else if c = CHR ''}'' then
        (case cs of
           [] \<Rightarrow> True
         | d # ds \<Rightarrow> if d = CHR ''}'' then supported_text ds else True)
      else supported_text cs)"
| "supported_field acc [] = True"
| "supported_field acc (c # cs) =
     (if c = CHR ''}'' then
        (if rev acc = [] then True
         else if list_all is_digit (rev acc) then length (rev acc) \<le> 9
         else supported_text cs)
      else if c = CHR ''{'' then True
      else if c \<in> set ''.[!:'' then False
      else supported_field (c # acc) cs)"


subsection \<open>The built-in templates\<close>

text \<open>The five templates, character for character; a line break in a literal is the
  character \<open>\n\<close>.\<close>

definition SHELL_ROLE :: string where
  "SHELL_ROLE = ''You are a {shell} shell command generator for {os}
Generate only valid bash commands, without explanations or additional text.
Handle incomplete prompts by providing the most logical solution.
Combine multiple steps using && when necessary.
Output plain text only, without formatting or markdown.
Ensure commands are concise, efficient, and adhere to best practices.
Consider edge cases and potential errors, and handle them appropriately.
Optimize commands for performance and resource usage when relevant.
Use clear and standard syntax, following bash conventions.
Remember, output the command described in natural language, then stop typing anything.
Any text after the first newline is going to be discarded unless you choose to place the {shell} shell text in markdown.
The task prescribed to you is only to translate from natural language to {shell} shell commands.''"

definition DESCRIBE_SHELL_ROLE :: string where
  "DESCRIBE_SHELL_ROLE = ''You are a Shell Command Descriptor.
For a given {shell} shell command in {os}
* Provide a concise, single-sentence description.
* Explain each argument and option of the command in a brief paragraph.
* Use Markdown formatting with triple or single backticks when appropriate, ensuring proper syntax with opening and closing backticks.
* Keep text inside Markdown concise and descriptions as short as possible.
* Use clear, technical language and maintain a consistent structure for each command description.
* Highlight key aspects such as required vs. optional arguments and default behaviors.
* Provide usage examples if necessary for clarity, using Markdown for code blocks.
* Ensure accuracy and completeness in your descriptions.''"

definition SHELL_COMMAND_FIXER_ROLE :: string where
  "SHELL_COMMAND_FIXER_ROLE = ''You are a {shell} Shell Command Fixer operating within a controlled installation of {os}
Analyze single-line {shell} commands for potential errors.
If erroneous, provide a corrected command that is both valid and optimized.
Address common errors like incorrect flags, missing arguments, or syntax issues.
Consider edge cases and potential unintended consequences.
Explain corrections concisely using Markdown formatting.
Suggest alternative approaches when applicable.
Output valid commands verbatim.
Ensure that you take reasonable steps to ensure compatibility with the user's {shell} shell version and OS.
Output the fixed or original command followed by any explanations or suggestions.
Avoid placeholders unless present in the original command.
Prioritize working solutions that align with the user's intent, avoiding unnecessary simplification.''"

definition CODE_ROLE :: string where
  "CODE_ROLE = ''You are a Code Generator.
Generate code snippets or scripts based on the provided prompt.
Output the code directly, without explanations or descriptions.
Use plain text format without markdown or code delimiters.
Assume the most logical solution for incomplete prompts.
Focus on concise, functional code adhering to best practices.
Infer the programming language from the prompt if not specified.
Prioritize code clarity and brevity.\<newline>''"

definition DEFAULT_ROLE :: string where
  "DEFAULT_ROLE = ''You are ShellGPT, a {os} system administrator with expertise in the {shell} shell.
Respond concisely, aiming for around 100 words unless more detail is needed.
Utilize Markdown formatting for commands (bash code blocks) and code tools (Python Jupyter notebook cells).
Explain complex topics clearly, using examples when beneficial.
Adapt your communication style to the user's specific requirements.
Assume data storage within the conversation context.
Provide step-by-step guidance for tasks and troubleshooting.
Prioritize accurate, efficient solutions based on best practices.
Generate executable code and shell commands without requiring modifications.
Prompt for additional information when necessary.
Focus on fulfilling the user's specific needs.\<newline>''"

subsection \<open>The class \<open>SystemRole\<close>\<close>

text \<open>
  \<open>__init__(self, name, role, variables=None)\<close>: the template is formatted only when
  \<open>variables\<close> is truthy, that is neither \<open>None\<close> nor the empty dict. A dict is an
  association list here.
\<close>

definition SystemRole_init ::
  "string \<Rightarrow> string \<Rightarrow> (string \<times> string) list option \<Rightarrow> error + SystemRole" where
  "SystemRole_init n r variables =
     (case variables of
        None \<Rightarrow> Inr \<lparr>name = n, role = r\<rparr>
      | Some vs \<Rightarrow>
          if vs \<noteq> [] then
            (case format_text vs r of
               Inl e \<Rightarrow> Inl e
             | Inr r' \<Rightarrow> Inr \<lparr>name = n, role = r'\<rparr>)
          else Inr \<lparr>name = n, role = r\<rparr>)"

text \<open>
  \<open>get(cls, name)\<close>: BadArgumentUsage when the file is absent, else
  \<open>cls(**json.loads(file_path.read_text()))\<close>, with no variables.
\<close>

definition SystemRole_get :: "storage \<Rightarrow> string \<Rightarrow> error + SystemRole" where
  "SystemRole_get st n =
     (case st (file_path n) of
        None \<Rightarrow> Inl (BadArgumentUsage n)
      | Some f \<Rightarrow> SystemRole_init (name f) (role f) None)"

text \<open>
  \<open>_save(self)\<close>. The answer of the user to \<open>typer.confirm\<close> is the argument
  \<open>confirm\<close>; with \<open>abort=True\<close> a declined confirmation raises \<open>Abort\<close> before
  anything is written. Then the role text is rewrapped and \<open>write_text\<close> is called.
  For a plain file name the file is written. For any other name the write is outside
  the model (it fails, or it reaches a file of another directory): the result is
  \<open>Unsupported\<close> and the model makes no statement about the storage. The result is
  the outcome (the instance with its \<open>role\<close> attribute rewritten, or the exception)
  and the storage afterwards.
\<close>

definition SystemRole_save ::
  "bool \<Rightarrow> SystemRole \<Rightarrow> storage \<Rightarrow> (error + SystemRole) \<times> storage" where
  "SystemRole_save confirm r st =
     (if exists_role st r \<and> \<not> confirm then (Inl Abort, st)
      else
        (case format_text [(''name'', name r), (''role'', role r)] ROLE_TEMPLATE of
           Inl e \<Rightarrow> (Inl e, st)
         | Inr text \<Rightarrow>
             let r' = r\<lparr>role := text\<rparr>
             in if plain_file_name (name r')
                then (Inr r', st(file_path (name r') \<mapsto> r'))
                else (Inl Unsupported, st)))"

text \<open>What \<open>_save\<close> writes for an instance: its role text under the header.\<close>

definition wrapped :: "SystemRole \<Rightarrow> SystemRole" where
  "wrapped r = r\<lparr>role := ''You are '' @ name r @ ''\<newline>'' @ role r\<rparr>"

text \<open>
  \<open>create_defaults(cls)\<close>. The five instances are built first, in the order of the
  tuple, so an exception of \<open>__init__\<close> leaves before anything is written; then
  each one that does not exist is saved. \<open>shell\<close> and \<open>os\<close> are the results of
  \<open>_shell_name()\<close> and \<open>_os_name()\<close>, read from the platform. The directories
  created by \<open>mkdir\<close> hold no file and are not part of the model. \<open>confirm\<close>
  is the answer a confirmation would get; \<open>_save\<close> asks for none here, since it is
  called only for a record that does not exist.
\<close>

fun save_missing :: "bool \<Rightarrow> SystemRole list \<Rightarrow> storage \<Rightarrow> (error + unit) \<times> storage" where
  "save_missing confirm [] st = (Inr (), st)"
| "save_missing confirm (default_role # rest) st =
     (if \<not> exists_role st default_role then
        (case SystemRole_save confirm default_role st of
           (Inl e, st') \<Rightarrow> (Inl e, st')
         | (Inr _, st') \<Rightarrow> save_missing confirm rest st')
      else save_missing confirm rest st)"

definition create_defaults ::
  "bool \<Rightarrow> string \<Rightarrow> string \<Rightarrow> storage \<Rightarrow> (error + unit) \<times> storage" where
  "create_defaults confirm shell os st =
     (let variables = [(''shell'', shell), (''os'', os)] in
      case SystemRole_init ''ShellGPT'' DEFAULT_ROLE (Some variables) of
        Inl e \<Rightarrow> (Inl e, st)
      | Inr r1 \<Rightarrow>
      case SystemRole_init ''Shell Command Generator'' SHELL_ROLE (Some variables) of
        Inl e \<Rightarrow> (Inl e, st)
      | Inr r2 \<Rightarrow>
      case SystemRole_init ''Shell Command Descriptor'' DESCRIBE_SHELL_ROLE (Some variables) of
        Inl e \<Rightarrow> (Inl e, st)
      | Inr r3 \<Rightarrow>
      case SystemRole_init ''Code Generator'' CODE_ROLE None of
        Inl e \<Rightarrow> (Inl e, st)
      | Inr r4 \<Rightarrow>
      case SystemRole_init ''Shell Command Fixer'' SHELL_COMMAND_FIXER_ROLE (Some variables) of
        Inl e \<Rightarrow> (Inl e, st)
      | Inr r5 \<Rightarrow> save_missing confirm [r1, r2, r3, r4, r5] st)"

subsection \<open>Python string operations used by \<open>get_role_name\<close>\<close>

definition startswith :: "string \<Rightarrow> string \<Rightarrow> bool" where
  "startswith s p = (take (length p) s = p)"

text \<open>\<open>sub in s\<close>.\<close>

fun contains :: "string \<Rightarrow> string \<Rightarrow> bool" where
  "contains [] sub = (sub = [])"
| "contains (c # cs) sub = (startswith (c # cs) sub \<or> contains cs sub)"

text \<open>
  \<open>s.splitlines()\<close>: the line boundaries among the characters below 256 are
  \<open>\n\<close>, \<open>\r\<close>, \<open>\r\n\<close>, \<open>\v\<close>, \<open>\f\<close>, \<open>\x1c\<close>, \<open>\x1d\<close>, \<open>\x1e\<close> and
  \<open>\x85\<close>; the boundaries are dropped, and no empty last line is produced.
\<close>

definition is_linebreak :: "char \<Rightarrow> bool" where
  "is_linebreak c =
     (c \<in> {CHR 0x0A, CHR 0x0B, CHR 0x0C, CHR 0x0D, CHR 0x1C, CHR 0x1D, CHR 0x1E, CHR 0x85})"

fun splitlines_from :: "string \<Rightarrow> string \<Rightarrow> string list" where
  "splitlines_from acc [] = (if acc = [] then [] else [rev acc])"
| "splitlines_from acc (c # cs) =
     (if c = CHR 0x0D then
        (case cs of
           [] \<Rightarrow> [rev acc]
         | d # ds \<Rightarrow> if d = CHR 0x0A then rev acc # splitlines_from [] ds
                     else rev acc # splitlines_from [] cs)
      else if is_linebreak c then rev acc # splitlines_from [] cs
      else splitlines_from (c # acc) cs)"

definition splitlines :: "string \<Rightarrow> string list" where
  "splitlines s = splitlines_from [] s"

text \<open>\<open>s.split(sep)\<close> for a separator that is not empty.\<close>

fun split_from :: "string \<Rightarrow> string \<Rightarrow> string \<Rightarrow> string list" where
  "split_from sep acc [] = [rev acc]"
| "split_from sep acc (c # cs) =
     (if sep \<noteq> [] \<and> startswith (c # cs) sep
      then rev acc # split_from sep [] (drop (length sep - 1) cs)
      else split_from sep (c # acc) cs)"

definition split :: "string \<Rightarrow> string \<Rightarrow> string list" where
  "split s sep = split_from sep [] s"

text \<open>\<open>s.strip()\<close>: the whitespace characters below 256.\<close>

definition is_py_space :: "char \<Rightarrow> bool" where
  "is_py_space c =
     (c \<in> {CHR 0x09, CHR 0x0A, CHR 0x0B, CHR 0x0C, CHR 0x0D, CHR 0x1C, CHR 0x1D, CHR 0x1E,
            CHR 0x1F, CHR 0x20, CHR 0x85, CHR 0xA0})"

definition strip :: "string \<Rightarrow> string" where
  "strip s = rev (dropWhile is_py_space (rev (dropWhile is_py_space s)))"

text \<open>
  \<open>get_role_name(cls, initial_message)\<close>. A non-empty string has a first line. The
  test looks for \<open>You are\<close> but the split is at \<open>You are \<close> with the blank, so the
  index \<open>[1]\<close> raises IndexError when the blank is missing.
\<close>

definition get_role_name :: "string \<Rightarrow> error + string option" where
  "get_role_name initial_message =
     (if initial_message = [] then Inr None
      else
        (case splitlines initial_message of
           [] \<Rightarrow> Inl IndexError
         | line0 # _ \<Rightarrow>
             if contains line0 ''You are'' then
               (case split line0 ''You are '' of
                  _ # part1 # _ \<Rightarrow> Inr (Some (strip part1))
                | _ \<Rightarrow> Inl IndexError)
             else Inr None))"

subsection \<open>The enumeration \<open>DefaultRoles\<close>\<close>

datatype DefaultRoles = DEFAULT | SHELL | SHELL_COMMAND_FIXER | DESCRIBE_SHELL | CODE

fun role_value :: "DefaultRoles \<Rightarrow> string" where
  "role_value DEFAULT = ''ShellGPT''"
| "role_value SHELL = ''Shell Command Generator''"
| "role_value SHELL_COMMAND_FIXER = ''Shell Command Fixer''"
| "role_value DESCRIBE_SHELL = ''Shell Command Descriptor''"
| "role_value CODE = ''Code Generator''"

definition check_get :: "storage \<Rightarrow> bool \<Rightarrow> bool \<Rightarrow> bool \<Rightarrow> bool \<Rightarrow> error + SystemRole" where
  "check_get st shell describe_shell code shell_fix =
     (if shell then SystemRole_get st (role_value SHELL)
      else if describe_shell then SystemRole_get st (role_value DESCRIBE_SHELL)
      else if code then SystemRole_get st (role_value CODE)
      else if shell_fix then SystemRole_get st (role_value SHELL_COMMAND_FIXER)
      else SystemRole_get st (role_value DEFAULT))"

text \<open>
  The rule of the specification, in its words: the intents are tried in the order
  shell-mode, describe-mode, code-mode, fix-mode; the first one set decides, and the
  default assistant is chosen when none is set.
\<close>

fun first_set :: "(bool \<times> DefaultRoles) list \<Rightarrow> DefaultRoles" where
  "first_set [] = DEFAULT"
| "first_set ((b, k) # rest) = (if b then k else first_set rest)"

definition resolve_by_intent :: "bool \<Rightarrow> bool \<Rightarrow> bool \<Rightarrow> bool \<Rightarrow> DefaultRoles" where
  "resolve_by_intent shell describe_shell code shell_fix =
     first_set [(shell, SHELL), (describe_shell, DESCRIBE_SHELL), (code, CODE),
                (shell_fix, SHELL_COMMAND_FIXER)]"

section \<open>Shell integration (sgpt/integration.py)\<close>

text \<open>
  The functions \<open>_parse_first_markdown\<close>, \<open>_parse_last_markdown\<close> and
  \<open>_sgpt_bash_fix\<close> of \<open>bash_integration\<close>: pipelines of \<open>echo\<close>, GNU \<open>sed\<close>,
  \<open>head\<close> and \<open>tr\<close>. A stream is a string; \<open>sed\<close> and \<open>head\<close> work on its lines.

  The shell text is a Python string literal that is not raw. In the lines of these
  functions the only backslash sequence that Python rewrites is \<open>\n\<close>, which becomes a
  line break (\<open>\{\<close>, \<open>\(\<close>, \<open>\?\<close> stay as they are). Two sed scripts contain it.
  As the source lines read, sed receives \<open>\n\<close> in a regular expression, where it
  stands for a newline. In the value of the literal, the text that is installed, the
  \<open>s\<close> command is cut by a line break: sed reports an unterminated command, prints
  nothing and fails, and the pipeline goes on with an empty stream. \<open>tr -d '\n'\<close>
  deletes newlines under both readings. The model takes the reading as a parameter,
  and the properties below are stated for both.
\<close>

datatype reading = Written | Installed

text \<open>The output of a sed command whose script contains \<open>\n\<close>.\<close>

definition script_with_newline :: "reading \<Rightarrow> string list \<Rightarrow> string list" where
  "script_with_newline rd out = (case rd of Written \<Rightarrow> out | Installed \<Rightarrow> [])"

subsection \<open>Regular expressions\<close>

datatype rexp =
    Nul                 \<comment> \<open>matches nothing\<close>
  | Eps                 \<comment> \<open>the empty string\<close>
  | Chr char            \<comment> \<open>one given character\<close>
  | NotChr char         \<comment> \<open>\<open>[^c]\<close>\<close>
  | Any                 \<comment> \<open>\<open>.\<close>\<close>
  | Space               \<comment> \<open>\<open>[[:space:]]\<close>\<close>
  | Alt rexp rexp
  | Seq rexp rexp
  | Star rexp

definition is_space :: "char \<Rightarrow> bool" where
  "is_space c = (c \<in> {CHR 0x20, CHR 0x09, CHR 0x0A, CHR 0x0B, CHR 0x0C, CHR 0x0D})"

fun nullable :: "rexp \<Rightarrow> bool" where
  "nullable Nul = False"
| "nullable Eps = True"
| "nullable (Chr c) = False"
| "nullable (NotChr c) = False"
| "nullable Any = False"
| "nullable Space = False"
| "nullable (Alt r s) = (nullable r \<or> nullable s)"
| "nullable (Seq r s) = (nullable r \<and> nullable s)"
| "nullable (Star r) = True"

text \<open>\<open>deriv c r\<close> matches \<open>w\<close> exactly when \<open>r\<close> matches \<open>c # w\<close>.\<close>

fun deriv :: "char \<Rightarrow> rexp \<Rightarrow> rexp" where
  "deriv c Nul = Nul"
| "deriv c Eps = Nul"
| "deriv c (Chr d) = (if c = d then Eps else Nul)"
| "deriv c (NotChr d) = (if c = d then Nul else Eps)"
| "deriv c Any = Eps"
| "deriv c Space = (if is_space c then Eps else Nul)"
| "deriv c (Alt r s) = Alt (deriv c r) (deriv c s)"
| "deriv c (Seq r s) =
     (if nullable r then Alt (Seq (deriv c r) s) (deriv c s) else Seq (deriv c r) s)"
| "deriv c (Star r) = Seq (deriv c r) (Star r)"

text \<open>\<open>r\{1,\}\<close>, \<open>r\?\<close> and a literal string.\<close>

definition Plus :: "rexp \<Rightarrow> rexp" where
  "Plus r = Seq r (Star r)"

definition Opt :: "rexp \<Rightarrow> rexp" where
  "Opt r = Alt r Eps"

fun Str :: "string \<Rightarrow> rexp" where
  "Str [] = Eps"
| "Str (c # cs) = Seq (Chr c) (Str cs)"

text \<open>
  The lengths, in ascending order and counted from \<open>n\<close>, of the prefixes of a string
  that \<open>r\<close> matches.
\<close>

fun prefix_matches :: "rexp \<Rightarrow> string \<Rightarrow> nat \<Rightarrow> nat list" where
  "prefix_matches r [] n = (if nullable r then [n] else [])"
| "prefix_matches r (c # cs) n =
     (if nullable r then [n] else []) @ prefix_matches (deriv c r) cs (Suc n)"

text \<open>
  The longest match of \<open>r\<close> that starts at the head of \<open>s\<close>; with \<open>eol\<close> (the
  regular expression ends in \<open>$\<close>) the match must end where \<open>s\<close> ends.
\<close>

definition longest_match :: "bool \<Rightarrow> rexp \<Rightarrow> string \<Rightarrow> nat option" where
  "longest_match eol r s =
     (let ns = filter (\<lambda>n. \<not> eol \<or> n = length s) (prefix_matches r s 0)
      in if ns = [] then None else Some (last ns))"

text \<open>A sed address \<open>/r/\<close>: some part of the line matches.\<close>

fun search :: "bool \<Rightarrow> rexp \<Rightarrow> string \<Rightarrow> bool" where
  "search eol r [] = (longest_match eol r [] \<noteq> None)"
| "search eol r (c # cs) = (longest_match eol r (c # cs) \<noteq> None \<or> search eol r cs)"

text \<open>
  The sed command \<open>s/r/replacement/\<close> on one line: the leftmost match, the longest
  at that place, is replaced; a line without a match is unchanged. With \<open>bol\<close> (the
  regular expression starts with \<open>^\<close>) the match must start the line. The replacement
  is computed from the matched text.
\<close>

definition subst_here :: "bool \<Rightarrow> rexp \<Rightarrow> (string \<Rightarrow> string) \<Rightarrow> string \<Rightarrow> string option" where
  "subst_here eol r rep s =
     (case longest_match eol r s of
        None \<Rightarrow> None
      | Some n \<Rightarrow> Some (rep (take n s) @ drop n s))"

fun subst_scan :: "bool \<Rightarrow> rexp \<Rightarrow> (string \<Rightarrow> string) \<Rightarrow> string \<Rightarrow> string option" where
  "subst_scan eol r rep [] = subst_here eol r rep []"
| "subst_scan eol r rep (c # cs) =
     (case subst_here eol r rep (c # cs) of
        Some t \<Rightarrow> Some t
      | None \<Rightarrow> map_option ((#) c) (subst_scan eol r rep cs))"

definition sed_s :: "bool \<Rightarrow> bool \<Rightarrow> rexp \<Rightarrow> (string \<Rightarrow> string) \<Rightarrow> string \<Rightarrow> string" where
  "sed_s bol eol r rep line =
     (case (if bol then subst_here eol r rep line else subst_scan eol r rep line) of
        None \<Rightarrow> line
      | Some t \<Rightarrow> t)"

subsection \<open>The strings a regular expression matches\<close>

text \<open>
  The meaning of a regular expression as a set of strings, against which the matcher
  above is proved right.
\<close>

inductive_set star :: "string set \<Rightarrow> string set" for A :: "string set" where
  star_empty: "[] \<in> star A"
| star_more: "u \<in> A \<Longrightarrow> v \<in> star A \<Longrightarrow> u @ v \<in> star A"

fun lang :: "rexp \<Rightarrow> string set" where
  "lang Nul = {}"
| "lang Eps = {[]}"
| "lang (Chr c) = {[c]}"
| "lang (NotChr c) = {[d] | d. d \<noteq> c}"
| "lang Any = {[d] | d. True}"
| "lang Space = {[d] | d. is_space d}"
| "lang (Alt r s) = lang r \<union> lang s"
| "lang (Seq r s) = {u @ v | u v. u \<in> lang r \<and> v \<in> lang s}"
| "lang (Star r) = star (lang r)"

subsection \<open>Streams, lines and the commands of the pipelines\<close>

text \<open>The lines of a stream; a last line without its newline is a line too.\<close>

fun lines_from :: "string \<Rightarrow> string \<Rightarrow> string list" where
  "lines_from acc [] = (if acc = [] then [] else [rev acc])"
| "lines_from acc (c # cs) =
     (if c = CHR 0x0A then rev acc # lines_from [] cs else lines_from (c # acc) cs)"

definition lines_of :: "string \<Rightarrow> string list" where
  "lines_of s = lines_from [] s"

text \<open>Lines written out, each followed by a newline.\<close>

definition unlines :: "string list \<Rightarrow> string" where
  "unlines ls = concat (map (\<lambda>l. l @ [CHR 0x0A]) ls)"

text \<open>
  \<open>echo "$x"\<close> with the builtin of bash: an argument made of \<open>-\<close> and one or more of
  the letters \<open>n\<close>, \<open>e\<close>, \<open>E\<close> is taken as options and not printed; \<open>n\<close> among
  them suppresses the newline. Anything else is printed, followed by a newline.
\<close>

definition echo_option :: "string \<Rightarrow> bool" where
  "echo_option x =
     (case x of
        [] \<Rightarrow> False
      | c # cs \<Rightarrow> c = CHR ''-'' \<and> cs \<noteq> [] \<and> list_all (\<lambda>d. d \<in> set ''neE'') cs)"

definition echo :: "string \<Rightarrow> string" where
  "echo x =
     (if echo_option x then (if CHR ''n'' \<in> set x then [] else [CHR 0x0A])
      else x @ [CHR 0x0A])"

text \<open>Command substitution \<open>$(...)\<close>: the output without its trailing newlines.\<close>

definition capture :: "string \<Rightarrow> string" where
  "capture out = rev (dropWhile (\<lambda>c. c = CHR 0x0A) (rev out))"

text \<open>
  \<open>sed -n '/a/,/b/p'\<close>: a range starts at a line that matches \<open>a\<close> and ends at the
  next later line that matches \<open>b\<close>, or with the input; the lines of every range are
  printed. The flag tells whether a range is open.
\<close>

fun sed_range :: "(string \<Rightarrow> bool) \<Rightarrow> (string \<Rightarrow> bool) \<Rightarrow> bool \<Rightarrow> string list \<Rightarrow> string list" where
  "sed_range a b inside [] = []"
| "sed_range a b inside (l # ls) =
     (if inside then l # sed_range a b (\<not> b l) ls
      else if a l then l # sed_range a b True ls
      else sed_range a b False ls)"

text \<open>\<open>head -n 1\<close> and \<open>tr -d '\n'\<close>.\<close>

definition head1 :: "string list \<Rightarrow> string list" where
  "head1 ls = take 1 ls"

definition tr_d_newline :: "string \<Rightarrow> string" where
  "tr_d_newline s = filter (\<lambda>c. c \<noteq> CHR 0x0A) s"

subsection \<open>The regular expressions of the two functions\<close>

abbreviation backtick :: char where
  "backtick \<equiv> CHR 0x60"

text \<open>\<open>/`\{1,\}bash[^`]*\( -c\)\?$/\<close>: the line that opens a block tagged bash.\<close>

definition bash_fence_re :: rexp where
  "bash_fence_re =
     Seq (Plus (Chr backtick))
       (Seq (Str ''bash'') (Seq (Star (NotChr backtick)) (Opt (Str '' -c''))))"

definition bash_fence :: "string \<Rightarrow> bool" where
  "bash_fence l = search True bash_fence_re l"

text \<open>\<open>/`/\<close>: the line that closes a range.\<close>

definition has_backtick :: "string \<Rightarrow> bool" where
  "has_backtick l = search False (Chr backtick) l"

text \<open>
  \<open>/`{1,}$/\<close>: in a basic regular expression a brace without a backslash stands for
  itself, so this asks for a line that ends with a backtick followed by the four
  characters \<open>{1,}\<close>.
\<close>

definition any_fence :: "string \<Rightarrow> bool" where
  "any_fence l = search True (Str (backtick # ''{1,}'')) l"

subsection \<open>\<open>_parse_first_markdown\<close>\<close>

text \<open>
  \<open>sed 's/\n.*//'\<close>, as written: sed works on one line at a time, and a line holds
  no newline.
\<close>

definition cut_after_newline :: "string \<Rightarrow> string" where
  "cut_after_newline l = sed_s False False (Seq (Chr CHR 0x0A) (Star Any)) (\<lambda>m. []) l"

text \<open>
  The last command:
  \<open>sed 's/^`\{1,\}\([^`]*\)\?`\{1,\}$/\1/;s/^[[:space:]]*//;s/[[:space:]]*$//'\<close>.
  The first expression matches a whole line of backticks, characters other than
  backticks, and backticks again; its group is the middle part.
\<close>

definition group1 :: "string \<Rightarrow> string" where
  "group1 m = takeWhile (\<lambda>c. c \<noteq> backtick) (dropWhile (\<lambda>c. c = backtick) m)"

definition trim_block :: "string \<Rightarrow> string" where
  "trim_block l =
     (let l1 = sed_s True True
                 (Seq (Plus (Chr backtick)) (Seq (Opt (Star (NotChr backtick))) (Plus (Chr backtick))))
                 group1 l;
          l2 = sed_s True False (Star Space) (\<lambda>m. []) l1;
          l3 = sed_s False True (Star Space) (\<lambda>m. []) l2
      in l3)"

text \<open>The function prints its result; the value is its standard output.\<close>

definition parse_first_markdown :: "reading \<Rightarrow> string \<Rightarrow> string" where
  "parse_first_markdown rd markdown_text =
     (let first_code_block =
            capture (unlines (head1
              (sed_range bash_fence has_backtick False (lines_of (echo markdown_text)))));
          first_code_block =
            (if first_code_block = [] then
               capture (unlines (head1
                 (sed_range any_fence has_backtick False (lines_of (echo markdown_text)))))
             else first_code_block);
          first_code_block =
            (if first_code_block = [] then
               capture (unlines (script_with_newline rd
                 (map cut_after_newline (lines_of (echo markdown_text)))))
             else first_code_block)
      in unlines (map trim_block (lines_of (echo first_code_block))))"

subsection \<open>\<open>_parse_last_markdown\<close>\<close>

text \<open>
  \<open>sed 's/^`\{1,\}bash[^`]*\( -c\)\?[[:space:]]*\n*//;s/[[:space:]]*\n*`\{1,\}$//;
  s/^[[:space:]]*//;s/[[:space:]]*$//'\<close>, as written.
\<close>

definition trim_fix :: "string \<Rightarrow> string" where
  "trim_fix l =
     (let l1 = sed_s True False
                 (Seq (Plus (Chr backtick))
                   (Seq (Str ''bash'')
                     (Seq (Star (NotChr backtick))
                       (Seq (Opt (Str '' -c'')) (Seq (Star Space) (Star (Chr CHR 0x0A)))))))
                 (\<lambda>m. []) l;
          l2 = sed_s False True
                 (Seq (Star Space) (Seq (Star (Chr CHR 0x0A)) (Plus (Chr backtick))))
                 (\<lambda>m. []) l1;
          l3 = sed_s True False (Star Space) (\<lambda>m. []) l2;
          l4 = sed_s False True (Star Space) (\<lambda>m. []) l3
      in l4)"

definition parse_last_markdown :: "reading \<Rightarrow> string \<Rightarrow> string" where
  "parse_last_markdown rd markdown_text =
     (let last_code_block =
            capture (unlines
              (sed_range bash_fence has_backtick False (lines_of (echo markdown_text))))
      in if last_code_block \<noteq> [] then
           tr_d_newline (unlines (script_with_newline rd
             (map trim_fix (lines_of (echo last_code_block)))))
         else [])"

subsection \<open>\<open>_sgpt_bash_fix\<close>\<close>

text \<open>
  The variables of the line editor. \<open>sgpt_output\<close> is the standard output of the
  external command \<open>sgpt ... --role "Shell Command Fixer"\<close> fed with the line. The
  \<open>printf\<close> of the explanation writes to the terminal and changes no variable.
\<close>

record readline =
  READLINE_LINE :: string
  READLINE_POINT :: nat

definition sgpt_bash_fix :: "reading \<Rightarrow> string \<Rightarrow> readline \<Rightarrow> readline" where
  "sgpt_bash_fix rd sgpt_output rl =
     (if READLINE_LINE rl \<noteq> [] then
        (let fix_explanation = capture sgpt_output;
             fixed_command = capture (parse_last_markdown rd fix_explanation)
         in rl\<lparr>READLINE_LINE := fixed_command, READLINE_POINT := length fixed_command\<rparr>)
      else rl)"

section \<open>Properties of the role store\<close>

lemma format_ROLE_TEMPLATE:
  "format_text [(''name'', n), (''role'', r)] ROLE_TEMPLATE
     = Inr (''You are '' @ n @ ''\<newline>'' @ r)"
  by (simp add: ROLE_TEMPLATE_def lookup_field_def prepend_def is_digit_def)

lemma save_writes:
  "plain_file_name (name r) \<Longrightarrow> \<not> exists_role st r \<or> confirm \<Longrightarrow>
   SystemRole_save confirm r st =
     (Inr (r\<lparr>role := ''You are '' @ name r @ ''\<newline>'' @ role r\<rparr>),
      st(file_path (name r) \<mapsto> r\<lparr>role := ''You are '' @ name r @ ''\<newline>'' @ role r\<rparr>))"
  by (auto simp add: SystemRole_save_def format_ROLE_TEMPLATE Let_def)

lemma save_outside_model:
  "\<not> plain_file_name (name r) \<Longrightarrow> \<not> exists_role st r \<or> confirm \<Longrightarrow>
   SystemRole_save confirm r st = (Inl Unsupported, st)"
  by (auto simp add: SystemRole_save_def format_ROLE_TEMPLATE Let_def)

lemma save_aborts:
  "exists_role st r \<Longrightarrow> \<not> confirm \<Longrightarrow> SystemRole_save confirm r st = (Inl Abort, st)"
  by (simp add: SystemRole_save_def)

lemma get_stored: "st (file_path n) = Some f \<Longrightarrow> SystemRole_get st n = Inr f"
  by (simp add: SystemRole_get_def SystemRole_init_def)

lemma get_missing: "st (file_path n) = None \<Longrightarrow> SystemRole_get st n = Inl (BadArgumentUsage n)"
  by (simp add: SystemRole_get_def)

text \<open>
  C1. For every combination of the four intent flags \<open>check_get\<close> loads the role that
  the priority rule shell-mode, describe-mode, code-mode, fix-mode, default selects.
  With \<open>shell\<close> and \<open>code\<close> both set it loads the record stored under the name
  Shell Command Generator, whatever the other flags are, and the name selected is not
  Code Generator.
\<close>

theorem check_get_priority:
  "check_get st shell describe_shell code shell_fix
     = SystemRole_get st (role_value (resolve_by_intent shell describe_shell code shell_fix))
   \<and> check_get st True describe_shell True shell_fix
       = SystemRole_get st ''Shell Command Generator''
   \<and> role_value (resolve_by_intent True describe_shell True shell_fix) \<noteq> ''Code Generator''
   \<and> check_get (st(file_path ''Shell Command Generator'' \<mapsto> f)) True describe_shell True shell_fix
       = Inr f"
  by (simp add: check_get_def resolve_by_intent_def get_stored)

text \<open>
  C4. When a record of the same name is already stored and the overwrite confirmation
  is declined, \<open>_save\<close> ends with \<open>Abort\<close> and the storage is the one before the
  call; in particular the stored file of that name is unchanged.
\<close>

theorem save_declined_leaves_storage:
  "exists_role st r \<Longrightarrow>
   SystemRole_save False r st = (Inl Abort, st)
   \<and> snd (SystemRole_save False r st) (file_path (name r)) = st (file_path (name r))"
  by (simp add: save_aborts)

theorem save_declined_leaves_storage_witness:
  "exists_role [file_path ''pirate'' \<mapsto> \<lparr>name = ''pirate'', role = ''You are pirate\<newline>Arr''\<rparr>]
     \<lparr>name = ''pirate'', role = ''Speak like a sailor''\<rparr>
   \<and> SystemRole_save False \<lparr>name = ''pirate'', role = ''Speak like a sailor''\<rparr>
       [file_path ''pirate'' \<mapsto> \<lparr>name = ''pirate'', role = ''You are pirate\<newline>Arr''\<rparr>]
     = (Inl Abort,
        [file_path ''pirate'' \<mapsto> \<lparr>name = ''pirate'', role = ''You are pirate\<newline>Arr''\<rparr>])"
  using save_declined_leaves_storage
    [of "[file_path ''pirate'' \<mapsto> \<lparr>name = ''pirate'', role = ''You are pirate\<newline>Arr''\<rparr>]"
        "\<lparr>name = ''pirate'', role = ''Speak like a sailor''\<rparr>"]
  by (simp add: exists_role_def)

text \<open>
  C10 (as amended). Whenever \<open>_save\<close> writes (a plain file name; the record does not
  exist or the overwrite is confirmed), it stores the role text wrapped as
  \<open>You are {name}\n{role}\<close>, with no test for a header already there. So for a record
  stored under its own name, the file \<open>{name}.json\<close> holding the record named
  \<open>name\<close>, whose role text begins with the header: \<open>get\<close> returns that record,
  and saving it again with the overwrite confirmed stores in that file a role text
  with the header twice, so the stored record is not what it was. When the overwrite
  is declined nothing is written.
\<close>

theorem get_then_save_doubles_header:
  assumes "st (file_path n) = Some f"
    and "name f = n"
    and "plain_file_name n"
    and "role f = ''You are '' @ n @ ''\<newline>'' @ body"
  shows "SystemRole_get st n = Inr f
    \<and> SystemRole_save True f st =
        (Inr (f\<lparr>role := ''You are '' @ n @ ''\<newline>'' @ ''You are '' @ n @ ''\<newline>'' @ body\<rparr>),
         st(file_path n \<mapsto>
              f\<lparr>role := ''You are '' @ n @ ''\<newline>'' @ ''You are '' @ n @ ''\<newline>'' @ body\<rparr>))
    \<and> snd (SystemRole_save True f st) (file_path n) \<noteq> st (file_path n)
    \<and> SystemRole_save False f st = (Inl Abort, st)
    \<and> (\<forall>c r s. plain_file_name (name r) \<longrightarrow>
          SystemRole_save c r s = (Inl Abort, s)
          \<or> SystemRole_save c r s =
              (Inr (r\<lparr>role := ''You are '' @ name r @ ''\<newline>'' @ role r\<rparr>),
               s(file_path (name r) \<mapsto> r\<lparr>role := ''You are '' @ name r @ ''\<newline>'' @ role r\<rparr>)))"
proof -
  let ?h = "''You are '' @ n @ ''\<newline>''"
  let ?f' = "f\<lparr>role := ?h @ ?h @ body\<rparr>"
  have g: "SystemRole_get st n = Inr f"
    using assms(1) by (rule get_stored)
  have s: "SystemRole_save True f st = (Inr ?f', st(file_path n \<mapsto> ?f'))"
    using save_writes [of f st True] assms(2,3,4) by simp
  have "length (role ?f') \<noteq> length (role f)"
    using assms(4) by simp
  then have "?f' \<noteq> f"
    by metis
  then have d: "snd (SystemRole_save True f st) (file_path n) \<noteq> st (file_path n)"
    using s assms(1) by simp
  have "exists_role st f"
    using assms(1,2) by (simp add: exists_role_def)
  then have b: "SystemRole_save False f st = (Inl Abort, st)"
    by (simp add: save_aborts)
  have a: "\<forall>c r s. plain_file_name (name r) \<longrightarrow>
          SystemRole_save c r s = (Inl Abort, s)
          \<or> SystemRole_save c r s =
              (Inr (r\<lparr>role := ''You are '' @ name r @ ''\<newline>'' @ role r\<rparr>),
               s(file_path (name r) \<mapsto> r\<lparr>role := ''You are '' @ name r @ ''\<newline>'' @ role r\<rparr>))"
    using save_writes save_aborts by blast
  from g s d b a show ?thesis
    by simp
qed

theorem get_then_save_doubles_header_witness:
  "plain_file_name ''pirate''
   \<and> SystemRole_get [file_path ''pirate'' \<mapsto> \<lparr>name = ''pirate'', role = ''You are pirate\<newline>Arr''\<rparr>] ''pirate''
     = Inr \<lparr>name = ''pirate'', role = ''You are pirate\<newline>Arr''\<rparr>
   \<and> SystemRole_save True \<lparr>name = ''pirate'', role = ''You are pirate\<newline>Arr''\<rparr>
        [file_path ''pirate'' \<mapsto> \<lparr>name = ''pirate'', role = ''You are pirate\<newline>Arr''\<rparr>]
     = (Inr \<lparr>name = ''pirate'', role = ''You are pirate\<newline>You are pirate\<newline>Arr''\<rparr>,
        [file_path ''pirate'' \<mapsto> \<lparr>name = ''pirate'', role = ''You are pirate\<newline>You are pirate\<newline>Arr''\<rparr>])
   \<and> SystemRole_save False \<lparr>name = ''pirate'', role = ''You are pirate\<newline>Arr''\<rparr>
        [file_path ''pirate'' \<mapsto> \<lparr>name = ''pirate'', role = ''You are pirate\<newline>Arr''\<rparr>]
     = (Inl Abort,
        [file_path ''pirate'' \<mapsto> \<lparr>name = ''pirate'', role = ''You are pirate\<newline>Arr''\<rparr>])"
proof -
  have p: "plain_file_name ''pirate''"
    by (simp add: plain_file_name_def utf8_length_def file_path_def)
  from get_then_save_doubles_header
    [of "[file_path ''pirate'' \<mapsto> \<lparr>name = ''pirate'', role = ''You are pirate\<newline>Arr''\<rparr>]"
        "''pirate''" "\<lparr>name = ''pirate'', role = ''You are pirate\<newline>Arr''\<rparr>" "''Arr''"] p
  show ?thesis
    by simp
qed

text \<open>
  The claim as stated fails for a file that holds a record of another name: the file
  \<open>alias.json\<close> holds the record named \<open>other\<close>, with the header of that name.
  \<open>get\<close> loads it, \<open>_save\<close> writes \<open>other.json\<close>, and the stored record
  \<open>alias.json\<close> is what it was.
\<close>

theorem get_then_save_alias_counterexample:
  "SystemRole_get [file_path ''alias'' \<mapsto> \<lparr>name = ''other'', role = ''You are other\<newline>Arr''\<rparr>] ''alias''
     = Inr \<lparr>name = ''other'', role = ''You are other\<newline>Arr''\<rparr>
   \<and> SystemRole_save True \<lparr>name = ''other'', role = ''You are other\<newline>Arr''\<rparr>
        [file_path ''alias'' \<mapsto> \<lparr>name = ''other'', role = ''You are other\<newline>Arr''\<rparr>]
     = (Inr \<lparr>name = ''other'', role = ''You are other\<newline>You are other\<newline>Arr''\<rparr>,
        [file_path ''alias'' \<mapsto> \<lparr>name = ''other'', role = ''You are other\<newline>Arr''\<rparr>,
         file_path ''other'' \<mapsto> \<lparr>name = ''other'', role = ''You are other\<newline>You are other\<newline>Arr''\<rparr>])
   \<and> snd (SystemRole_save True \<lparr>name = ''other'', role = ''You are other\<newline>Arr''\<rparr>
          [file_path ''alias'' \<mapsto> \<lparr>name = ''other'', role = ''You are other\<newline>Arr''\<rparr>])
         (file_path ''alias'')
     = [file_path ''alias'' \<mapsto> \<lparr>name = ''other'', role = ''You are other\<newline>Arr''\<rparr>]
         (file_path ''alias'')"
proof -
  have p: "plain_file_name ''other''"
    by (simp add: plain_file_name_def utf8_length_def file_path_def)
  have e: "\<not> exists_role
      [file_path ''alias'' \<mapsto> \<lparr>name = ''other'', role = ''You are other\<newline>Arr''\<rparr>]
      \<lparr>name = ''other'', role = ''You are other\<newline>Arr''\<rparr>"
    by (simp add: exists_role_def file_path_def)
  have d: "file_path ''other'' \<noteq> file_path ''alias''"
    by (simp add: file_path_def)
  from save_writes [of "\<lparr>name = ''other'', role = ''You are other\<newline>Arr''\<rparr>"
      "[file_path ''alias'' \<mapsto> \<lparr>name = ''other'', role = ''You are other\<newline>Arr''\<rparr>]" True] p d
  show ?thesis
    by (simp add: get_stored)
qed

section \<open>Properties of template instantiation\<close>

lemma prepend_Inr [simp]: "prepend s (Inr t) = Inr (s @ t)" by (simp add: prepend_def)
lemma prepend_Inl [simp]: "prepend s (Inl e) = Inl e" by (simp add: prepend_def)

lemma format_text_step:
  "format_text vs (c # d # ds) =
     (if c = CHR ''{'' then
        (if d = CHR ''{'' then prepend [c] (format_text vs ds) else format_field vs [] (d # ds))
      else if c = CHR ''}'' then
        (if d = CHR ''}'' then prepend [c] (format_text vs ds) else Inl ValueError)
      else prepend [c] (format_text vs (d # ds)))"
  by (subst format_text.simps) (simp del: format_text.simps format_field.simps)

lemma fields_text_step:
  "fields_text (c # d # ds) =
     (if c = CHR ''{'' then
        (if d = CHR ''{'' then fields_text ds else fields_field [] (d # ds))
      else if c = CHR ''}'' then
        (if d = CHR ''}'' then fields_text ds else [])
      else fields_text (d # ds))"
  by (subst fields_text.simps) (simp del: fields_text.simps fields_field.simps)

lemma wf_text_step:
  "wf_text (c # d # ds) =
     (if c = CHR ''{'' then
        (if d = CHR ''{'' then wf_text ds else wf_field [] (d # ds))
      else if c = CHR ''}'' then
        (if d = CHR ''}'' then wf_text ds else False)
      else wf_text (d # ds))"
  by (subst wf_text.simps) (simp del: wf_text.simps wf_field.simps)





lemma format_succeeds:
  "wf_text t \<longrightarrow> (\<forall>f\<in>set (fields_text t). map_of vs f \<noteq> None) \<longrightarrow>
     (\<exists>out. format_text vs t = Inr out)"
  "wf_field acc cs \<longrightarrow> (\<forall>f\<in>set (fields_field acc cs). map_of vs f \<noteq> None) \<longrightarrow>
     (\<exists>out. format_field vs acc cs = Inr out)"
proof (induction t and acc cs rule: fields_text_fields_field.induct)
  case 1
  then show ?case by simp
next
  case (2 c cs)
  show ?case
  proof (cases cs)
    case Nil
    then show ?thesis by simp
  next
    case (Cons d ds)
    note ih = 2(1) [OF _ Cons] 2(2) [OF _ Cons, unfolded Cons] 2(3) [OF _ _ Cons]
      2(4) [unfolded Cons]
    show ?thesis
      unfolding Cons format_text_step fields_text_step wf_text_step
      using ih by (cases "format_text vs ds"; cases "format_text vs (d # ds)")
        (auto simp del: format_text.simps format_field.simps fields_text.simps
           fields_field.simps wf_text.simps wf_field.simps)
  qed
next
  case (3 acc)
  then show ?case by simp
next
  case (4 acc c cs)
  show ?case
  proof (cases "c = CHR ''}''")
    case True
    with 4 show ?thesis
      by (cases "map_of vs (rev acc)"; cases "format_text vs cs")
        (simp_all add: lookup_field_def)
  next
    case False
    with 4 show ?thesis by simp
  qed
qed



text \<open>
  Templates that are not well formed, with a non-empty mapping that lacks \<open>shell\<close>:
  a single closing brace raises ValueError and a numbered field raises IndexError,
  before the scan reaches \<open>{shell}\<close>; of two fields the mapping lacks, the first is
  reported.
\<close>

lemma init_malformed_templates:
  "SystemRole_init ''n'' ''} {shell}'' (Some [(''os'', ''Linux'')]) = Inl ValueError"
  "SystemRole_init ''n'' ''a {0} b {shell}'' (Some [(''os'', ''Linux'')]) = Inl IndexError"
  "SystemRole_init ''n'' ''{a} and {b}'' (Some [(''os'', ''Linux'')]) = Inl (KeyError ''a'')"
  "supported_text ''} {shell}'' \<and> \<not> wf_text ''} {shell}''"
  "supported_text ''a {0} b {shell}'' \<and> \<not> wf_text ''a {0} b {shell}''"
  by (simp_all add: SystemRole_init_def lookup_field_def is_digit_def)


section \<open>Properties of the bootstrap\<close>

lemma builtin_templates_wf:
  "wf_text DEFAULT_ROLE" "wf_text SHELL_ROLE" "wf_text DESCRIBE_SHELL_ROLE"
  "wf_text SHELL_COMMAND_FIXER_ROLE"
  by code_simp+

lemma builtin_templates_fields:
  "fields_text DEFAULT_ROLE = [''os'', ''shell'']"
  "fields_text SHELL_ROLE = [''shell'', ''os'', ''shell'', ''shell'']"
  "fields_text DESCRIBE_SHELL_ROLE = [''shell'', ''os'']"
  "fields_text SHELL_COMMAND_FIXER_ROLE = [''shell'', ''os'', ''shell'', ''shell'']"
  "fields_text CODE_ROLE = []"
  by code_simp+

lemma init_builtin:
  assumes "wf_text t" and "set (fields_text t) \<subseteq> {''shell'', ''os''}"
  shows "\<exists>b. SystemRole_init n t (Some [(''shell'', sh), (''os'', os)]) = Inr \<lparr>name = n, role = b\<rparr>"
proof -
  have "\<forall>f\<in>set (fields_text t). map_of [(''shell'', sh), (''os'', os)] f \<noteq> None"
    using assms(2) by auto
  with format_succeeds(1) [of t "[(''shell'', sh), (''os'', os)]"] assms(1)
  obtain out where "format_text [(''shell'', sh), (''os'', os)] t = Inr out"
    by blast
  then show ?thesis
    by (simp add: SystemRole_init_def)
qed

lemma create_defaults_roles:
  "\<exists>b1 b2 b3 b5. create_defaults c sh os st =
     save_missing c
       [\<lparr>name = ''ShellGPT'', role = b1\<rparr>,
        \<lparr>name = ''Shell Command Generator'', role = b2\<rparr>,
        \<lparr>name = ''Shell Command Descriptor'', role = b3\<rparr>,
        \<lparr>name = ''Code Generator'', role = CODE_ROLE\<rparr>,
        \<lparr>name = ''Shell Command Fixer'', role = b5\<rparr>] st"
proof -
  obtain b1 where 1: "SystemRole_init ''ShellGPT'' DEFAULT_ROLE (Some [(''shell'', sh), (''os'', os)])
      = Inr \<lparr>name = ''ShellGPT'', role = b1\<rparr>"
    using init_builtin [of DEFAULT_ROLE _ sh os] by (auto simp add: builtin_templates_wf builtin_templates_fields)
  obtain b2 where 2: "SystemRole_init ''Shell Command Generator'' SHELL_ROLE (Some [(''shell'', sh), (''os'', os)])
      = Inr \<lparr>name = ''Shell Command Generator'', role = b2\<rparr>"
    using init_builtin [of SHELL_ROLE _ sh os] by (auto simp add: builtin_templates_wf builtin_templates_fields)
  obtain b3 where 3: "SystemRole_init ''Shell Command Descriptor'' DESCRIBE_SHELL_ROLE (Some [(''shell'', sh), (''os'', os)])
      = Inr \<lparr>name = ''Shell Command Descriptor'', role = b3\<rparr>"
    using init_builtin [of DESCRIBE_SHELL_ROLE _ sh os] by (auto simp add: builtin_templates_wf builtin_templates_fields)
  obtain b5 where 5: "SystemRole_init ''Shell Command Fixer'' SHELL_COMMAND_FIXER_ROLE (Some [(''shell'', sh), (''os'', os)])
      = Inr \<lparr>name = ''Shell Command Fixer'', role = b5\<rparr>"
    using init_builtin [of SHELL_COMMAND_FIXER_ROLE _ sh os] by (auto simp add: builtin_templates_wf builtin_templates_fields)
  have 4: "SystemRole_init ''Code Generator'' CODE_ROLE None = Inr \<lparr>name = ''Code Generator'', role = CODE_ROLE\<rparr>"
    by (simp add: SystemRole_init_def)
  have "create_defaults c sh os st =
     save_missing c
       [\<lparr>name = ''ShellGPT'', role = b1\<rparr>,
        \<lparr>name = ''Shell Command Generator'', role = b2\<rparr>,
        \<lparr>name = ''Shell Command Descriptor'', role = b3\<rparr>,
        \<lparr>name = ''Code Generator'', role = CODE_ROLE\<rparr>,
        \<lparr>name = ''Shell Command Fixer'', role = b5\<rparr>] st"
    unfolding create_defaults_def Let_def 1 2 3 4 5 by (simp del: save_missing.simps)
  then show ?thesis
    by blast
qed


lemma plain_builtin_names:
  "plain_file_name ''ShellGPT''"
  "plain_file_name ''Shell Command Generator''"
  "plain_file_name ''Shell Command Descriptor''"
  "plain_file_name ''Code Generator''"
  "plain_file_name ''Shell Command Fixer''"
  by code_simp+

lemma plain_role_value: "plain_file_name (role_value k)"
  by (cases k) (simp_all add: plain_builtin_names)

lemma save_missing_step_absent:
  "plain_file_name (name r) \<Longrightarrow> \<not> exists_role st r \<Longrightarrow>
   save_missing c (r # rs) st = save_missing c rs (st(file_path (name r) \<mapsto> wrapped r))"
  using save_writes [of r st c] by (simp add: wrapped_def)

lemma save_missing_step_present:
  "exists_role st r \<Longrightarrow> save_missing c (r # rs) st = save_missing c rs st"
  by simp

lemma save_missing_result:
  "\<forall>r\<in>set rs. plain_file_name (name r) \<Longrightarrow>
   \<exists>st'. save_missing c rs st = (Inr (), st')
     \<and> (\<forall>p. st p \<noteq> None \<longrightarrow> st' p = st p)
     \<and> (\<forall>p. st' p = st p \<or> (\<exists>r\<in>set rs. p = file_path (name r) \<and> st' p = Some (wrapped r)))
     \<and> dom st' = dom st \<union> (\<lambda>r. file_path (name r)) ` set rs"
proof (induction rs arbitrary: st)
  case Nil
  then show ?case by simp
next
  case (Cons r rs)
  from Cons.prems have plain: "plain_file_name (name r)"
    and rest: "\<forall>r\<in>set rs. plain_file_name (name r)"
    by simp_all
  show ?case
  proof (cases "exists_role st r")
    case True
    then have "file_path (name r) \<in> dom st"
      by (auto simp add: exists_role_def)
    with Cons.IH [OF rest, of st] True show ?thesis
      unfolding save_missing_step_present [OF True] by auto
  next
    case False
    let ?st1 = "st(file_path (name r) \<mapsto> wrapped r)"
    from False have absent: "st (file_path (name r)) = None"
      by (simp add: exists_role_def)
    from Cons.IH [OF rest, of ?st1] obtain st' where r:
      "save_missing c rs ?st1 = (Inr (), st')"
      "\<forall>p. ?st1 p \<noteq> None \<longrightarrow> st' p = ?st1 p"
      "\<forall>p. st' p = ?st1 p \<or> (\<exists>r\<in>set rs. p = file_path (name r) \<and> st' p = Some (wrapped r))"
      "dom st' = dom ?st1 \<union> (\<lambda>r. file_path (name r)) ` set rs"
      by blast
    have a: "\<forall>p. st p \<noteq> None \<longrightarrow> st' p = st p"
      using r(2) absent by (metis fun_upd_apply)
    have b: "\<forall>p. st' p = st p
        \<or> (\<exists>r'\<in>set (r # rs). p = file_path (name r') \<and> st' p = Some (wrapped r'))"
    proof
      fix p
      show "st' p = st p
        \<or> (\<exists>r'\<in>set (r # rs). p = file_path (name r') \<and> st' p = Some (wrapped r'))"
      proof (cases "p = file_path (name r)")
        case True
        with r(2) have "st' p = Some (wrapped r)" by simp
        with True show ?thesis by simp
      next
        case False
        with r(3) show ?thesis by (metis fun_upd_apply list.set_intros(2))
      qed
    qed
    have d: "dom st' = dom st \<union> (\<lambda>r. file_path (name r)) ` set (r # rs)"
      using r(4) by auto
    from r(1) a b d show ?thesis
      unfolding save_missing_step_absent [OF plain False] by blast
  qed
qed

lemma save_missing_noop:
  "\<forall>r\<in>set rs. exists_role st r \<Longrightarrow> save_missing c rs st = (Inr (), st)"
  by (induction rs) simp_all


lemma UNIV_DefaultRoles: "UNIV = {DEFAULT, SHELL, SHELL_COMMAND_FIXER, DESCRIBE_SHELL, CODE}"
  using DefaultRoles.exhaust by blast

lemma inj_role_path: "inj (\<lambda>k. file_path (role_value k))"
proof (rule injI)
  fix x y
  assume "file_path (role_value x) = file_path (role_value y)"
  then have "role_value x = role_value y"
    by (simp add: file_path_def)
  then show "x = y"
    by (cases x; cases y) simp_all
qed

text \<open>
  C2. For every prior storage, every platform and every answer to a confirmation,
  \<open>create_defaults\<close> returns normally. Afterwards each of the five members of
  \<open>DefaultRoles\<close> has its file, the five files are distinct, every file that was there
  before holds what it held, and nothing but the five files was added. A second call,
  on any platform, leaves the storage exactly as it is.
\<close>

theorem create_defaults_idempotent:
  "\<exists>st'. create_defaults c sh os st = (Inr (), st')
     \<and> (\<forall>k. st' (file_path (role_value k)) \<noteq> None)
     \<and> (\<forall>p. st p \<noteq> None \<longrightarrow> st' p = st p)
     \<and> dom st' = dom st \<union> range (\<lambda>k. file_path (role_value k))
     \<and> inj (\<lambda>k. file_path (role_value k))
     \<and> (\<forall>c' sh' os'. create_defaults c' sh' os' st' = (Inr (), st'))"
proof -
  obtain b1 b2 b3 b5 where cd: "create_defaults c sh os st =
     save_missing c
       [\<lparr>name = ''ShellGPT'', role = b1\<rparr>,
        \<lparr>name = ''Shell Command Generator'', role = b2\<rparr>,
        \<lparr>name = ''Shell Command Descriptor'', role = b3\<rparr>,
        \<lparr>name = ''Code Generator'', role = CODE_ROLE\<rparr>,
        \<lparr>name = ''Shell Command Fixer'', role = b5\<rparr>] st"
    using create_defaults_roles by blast
  let ?rs = "[\<lparr>name = ''ShellGPT'', role = b1\<rparr>,
        \<lparr>name = ''Shell Command Generator'', role = b2\<rparr>,
        \<lparr>name = ''Shell Command Descriptor'', role = b3\<rparr>,
        \<lparr>name = ''Code Generator'', role = CODE_ROLE\<rparr>,
        \<lparr>name = ''Shell Command Fixer'', role = b5\<rparr>]"
  have paths: "(\<lambda>r. file_path (name r)) ` set ?rs = range (\<lambda>k. file_path (role_value k))"
    unfolding UNIV_DefaultRoles by auto
  have plain: "\<forall>r\<in>set ?rs. plain_file_name (name r)"
    by (simp add: plain_builtin_names)
  from save_missing_result [OF plain, of c st] obtain st' where r:
    "save_missing c ?rs st = (Inr (), st')"
    "\<forall>p. st p \<noteq> None \<longrightarrow> st' p = st p"
    "dom st' = dom st \<union> (\<lambda>r. file_path (name r)) ` set ?rs"
    by blast
  have d: "dom st' = dom st \<union> range (\<lambda>k. file_path (role_value k))"
    using r(3) unfolding paths .
  then have all: "\<forall>k. st' (file_path (role_value k)) \<noteq> None"
    by blast
  have again: "create_defaults c' sh' os' st' = (Inr (), st')" for c' sh' os'
  proof -
    obtain a1 a2 a3 a5 where "create_defaults c' sh' os' st' =
       save_missing c'
         [\<lparr>name = ''ShellGPT'', role = a1\<rparr>,
          \<lparr>name = ''Shell Command Generator'', role = a2\<rparr>,
          \<lparr>name = ''Shell Command Descriptor'', role = a3\<rparr>,
          \<lparr>name = ''Code Generator'', role = CODE_ROLE\<rparr>,
          \<lparr>name = ''Shell Command Fixer'', role = a5\<rparr>] st'"
      using create_defaults_roles by blast
    moreover have "\<forall>r\<in>set [\<lparr>name = ''ShellGPT'', role = a1\<rparr>,
          \<lparr>name = ''Shell Command Generator'', role = a2\<rparr>,
          \<lparr>name = ''Shell Command Descriptor'', role = a3\<rparr>,
          \<lparr>name = ''Code Generator'', role = CODE_ROLE\<rparr>,
          \<lparr>name = ''Shell Command Fixer'', role = a5\<rparr>]. exists_role st' r"
      using all [rule_format, of DEFAULT] all [rule_format, of SHELL]
        all [rule_format, of DESCRIBE_SHELL] all [rule_format, of CODE]
        all [rule_format, of SHELL_COMMAND_FIXER]
      by (simp add: exists_role_def)
    ultimately show ?thesis
      using save_missing_noop by simp
  qed
  from cd r(1) r(2) d all again inj_role_path show ?thesis
    by simp
qed

theorem create_defaults_idempotent_witness:
  "\<exists>st'. create_defaults True ''bash'' ''Linux''
            [file_path ''ShellGPT'' \<mapsto> \<lparr>name = ''ShellGPT'', role = ''You are ShellGPT\<newline>mine''\<rparr>]
          = (Inr (), st')
     \<and> st' (file_path ''ShellGPT'') = Some \<lparr>name = ''ShellGPT'', role = ''You are ShellGPT\<newline>mine''\<rparr>
     \<and> st' (file_path ''Code Generator'') \<noteq> None"
proof -
  let ?st = "[file_path ''ShellGPT'' \<mapsto> \<lparr>name = ''ShellGPT'', role = ''You are ShellGPT\<newline>mine''\<rparr>]"
  from create_defaults_idempotent [of True "''bash''" "''Linux''" ?st]
  obtain st' where r: "create_defaults True ''bash'' ''Linux'' ?st = (Inr (), st')"
    "\<forall>k. st' (file_path (role_value k)) \<noteq> None"
    "\<forall>p. ?st p \<noteq> None \<longrightarrow> st' p = ?st p"
    by blast
  have "?st (file_path ''ShellGPT'') \<noteq> None"
    by simp
  with r(3) have "st' (file_path ''ShellGPT'') = ?st (file_path ''ShellGPT'')"
    by blast
  moreover from r(2) have "st' (file_path (role_value CODE)) \<noteq> None"
    by blast
  ultimately show ?thesis
    using r(1) by simp
qed

section \<open>Round-trip identification\<close>

lemma splitlines_from_line:
  "\<forall>c\<in>set l. \<not> is_linebreak c \<Longrightarrow>
   splitlines_from acc (l @ CHR 0x0A # body) = (rev acc @ l) # splitlines_from [] body"
proof (induction l arbitrary: acc)
  case Nil
  then show ?case by (simp add: is_linebreak_def)
next
  case (Cons c l)
  then have "c \<noteq> CHR 0x0D" "\<not> is_linebreak c"
    by (auto simp add: is_linebreak_def)
  with Cons show ?case by simp
qed

lemma splitlines_from_single:
  "\<forall>c\<in>set l. \<not> is_linebreak c \<Longrightarrow>
   splitlines_from acc l = (if rev acc @ l = [] then [] else [rev acc @ l])"
proof (induction l arbitrary: acc)
  case Nil
  then show ?case by simp
next
  case (Cons c l)
  then have "c \<noteq> CHR 0x0D" "\<not> is_linebreak c"
    by (auto simp add: is_linebreak_def)
  with Cons show ?case by simp
qed

lemma get_role_name_first_line:
  assumes "l \<noteq> []" and "\<forall>c\<in>set l. \<not> is_linebreak c"
  shows "get_role_name (l @ CHR 0x0A # body) = get_role_name l"
  using assms
  by (simp add: get_role_name_def splitlines_def splitlines_from_line splitlines_from_single)

lemma header_no_linebreak: "\<forall>c\<in>set (''You are '' @ role_value k). \<not> is_linebreak c"
  by (cases k) (simp_all add: is_linebreak_def)

lemma get_role_name_builtin_header:
  "get_role_name ''You are ShellGPT'' = Inr (Some ''ShellGPT'')"
  "get_role_name ''You are Shell Command Generator'' = Inr (Some ''Shell Command Generator'')"
  "get_role_name ''You are Shell Command Fixer'' = Inr (Some ''Shell Command Fixer'')"
  "get_role_name ''You are Shell Command Descriptor'' = Inr (Some ''Shell Command Descriptor'')"
  "get_role_name ''You are Code Generator'' = Inr (Some ''Code Generator'')"
  by code_simp+

lemma get_role_name_header:
  "get_role_name (''You are '' @ role_value k) = Inr (Some (role_value k))"
  by (cases k) (simp_all add: get_role_name_builtin_header)

text \<open>
  C3. When \<open>_save\<close> persists a record that bears the name of a built-in role,
  whatever its role text, the stored role text has the header \<open>You are {name}\<close> as
  its first line, and \<open>get_role_name\<close>, applied to that first line or to the whole
  stored text, returns the name of the record.
\<close>

theorem builtin_role_name_roundtrip:
  assumes "SystemRole_save c \<lparr>name = role_value k, role = body\<rparr> st = (Inr r', st')"
  shows "st' (file_path (role_value k)) = Some r'
    \<and> name r' = role_value k
    \<and> splitlines (role r') = (''You are '' @ role_value k) # splitlines body
    \<and> get_role_name (''You are '' @ role_value k) = Inr (Some (name r'))
    \<and> get_role_name (role r') = Inr (Some (name r'))"
proof -
  let ?r = "\<lparr>name = role_value k, role = body\<rparr>"
  have p: "plain_file_name (name ?r)"
    using plain_role_value [of k] by simp
  have "SystemRole_save c ?r st = (Inl Abort, st) \<or> SystemRole_save c ?r st =
     (Inr (?r\<lparr>role := ''You are '' @ name ?r @ ''\<newline>'' @ role ?r\<rparr>),
      st(file_path (name ?r) \<mapsto> ?r\<lparr>role := ''You are '' @ name ?r @ ''\<newline>'' @ role ?r\<rparr>))"
  proof (cases "exists_role st ?r \<and> \<not> c")
    case True
    then show ?thesis
      using save_aborts [of st ?r c] by simp
  next
    case False
    then show ?thesis
      using save_writes [OF p, of st c] by blast
  qed
  with assms have r': "r' = \<lparr>name = role_value k, role = (''You are '' @ role_value k) @ CHR 0x0A # body\<rparr>"
    and st': "st' = st(file_path (role_value k) \<mapsto> r')"
    by auto
  have 1: "splitlines (role r') = (''You are '' @ role_value k) # splitlines body"
    unfolding r' splitlines_def
    using splitlines_from_line [of "''You are '' @ role_value k" "[]" body]
      header_no_linebreak [of k]
    by simp
  have h: "get_role_name (''You are '' @ role_value k) = Inr (Some (role_value k))"
    by (rule get_role_name_header)
  have "get_role_name ((''You are '' @ role_value k) @ CHR 0x0A # body)
      = get_role_name (''You are '' @ role_value k)"
    by (rule get_role_name_first_line) (simp, rule header_no_linebreak)
  moreover have "role r' = (''You are '' @ role_value k) @ CHR 0x0A # body"
    by (simp add: r')
  ultimately have 2: "get_role_name (role r') = Inr (Some (role_value k))"
    using h by (simp only:)
  have 3: "name r' = role_value k"
    by (simp add: r')
  from st' 1 2 3 h show ?thesis
    by (simp only: fun_upd_same simp_thms)
qed

theorem builtin_role_name_roundtrip_witness:
  "SystemRole_save True \<lparr>name = role_value CODE, role = ''Write code.''\<rparr> Map.empty
     = (Inr \<lparr>name = ''Code Generator'', role = ''You are Code Generator\<newline>Write code.''\<rparr>,
        [file_path ''Code Generator'' \<mapsto>
           \<lparr>name = ''Code Generator'', role = ''You are Code Generator\<newline>Write code.''\<rparr>])
   \<and> get_role_name ''You are Code Generator\<newline>Write code.'' = Inr (Some ''Code Generator'')
   \<and> splitlines ''You are Code Generator\<newline>Write code.'' = [''You are Code Generator'', ''Write code.'']"
proof -
  have s: "SystemRole_save True \<lparr>name = role_value CODE, role = ''Write code.''\<rparr> Map.empty
     = (Inr \<lparr>name = ''Code Generator'', role = ''You are Code Generator\<newline>Write code.''\<rparr>,
        [file_path ''Code Generator'' \<mapsto>
           \<lparr>name = ''Code Generator'', role = ''You are Code Generator\<newline>Write code.''\<rparr>])"
    by (simp add: SystemRole_save_def format_ROLE_TEMPLATE Let_def plain_builtin_names)
  have l: "splitlines ''Write code.'' = [''Write code.'']"
    by code_simp
  from builtin_role_name_roundtrip [OF s] s l show ?thesis
    by simp
qed

section \<open>Properties of the regular expressions\<close>

lemma nullable_lang: "nullable r \<longleftrightarrow> [] \<in> lang r"
  by (induction r) (auto intro: star_empty)

lemma star_cons_split:
  assumes "w \<in> star A" and "w = c # t"
  shows "\<exists>u v. t = u @ v \<and> c # u \<in> A \<and> v \<in> star A"
  using assms
proof (induction arbitrary: t rule: star.induct)
  case star_empty
  then show ?case by simp
next
  case (star_more u v)
  show ?case
  proof (cases u)
    case Nil
    with star_more show ?thesis by simp
  next
    case (Cons d u')
    with star_more(1,2,4) show ?thesis by auto
  qed
qed

lemma star_cons_iff:
  "c # t \<in> star A \<longleftrightarrow> (\<exists>u v. t = u @ v \<and> c # u \<in> A \<and> v \<in> star A)"
proof
  assume "c # t \<in> star A"
  then show "\<exists>u v. t = u @ v \<and> c # u \<in> A \<and> v \<in> star A"
    using star_cons_split by blast
next
  assume "\<exists>u v. t = u @ v \<and> c # u \<in> A \<and> v \<in> star A"
  then obtain u v where "t = u @ v" "c # u \<in> A" "v \<in> star A"
    by blast
  then show "c # t \<in> star A"
    using star_more [of "c # u" A v] by simp
qed

lemma deriv_lang: "w \<in> lang (deriv c r) \<longleftrightarrow> c # w \<in> lang r"
proof (induction r arbitrary: w)
  case (Seq r s)
  show ?case
  proof (cases "nullable r")
    case True
    then have "w \<in> lang (deriv c (Seq r s)) \<longleftrightarrow>
        (\<exists>u v. w = u @ v \<and> c # u \<in> lang r \<and> v \<in> lang s) \<or> c # w \<in> lang s"
      using Seq by auto
    also have "\<dots> \<longleftrightarrow> (\<exists>u v. c # w = u @ v \<and> u \<in> lang r \<and> v \<in> lang s)"
      using True by (auto simp add: nullable_lang Cons_eq_append_conv)
    finally show ?thesis by simp
  next
    case False
    then have "w \<in> lang (deriv c (Seq r s)) \<longleftrightarrow>
        (\<exists>u v. w = u @ v \<and> c # u \<in> lang r \<and> v \<in> lang s)"
      using Seq by auto
    also have "\<dots> \<longleftrightarrow> (\<exists>u v. c # w = u @ v \<and> u \<in> lang r \<and> v \<in> lang s)"
      using False by (auto simp add: nullable_lang Cons_eq_append_conv)
    finally show ?thesis by simp
  qed
next
  case (Star r)
  then show ?case
    by (auto simp add: star_cons_iff)
qed auto

lemma prefix_matches_set:
  "set (prefix_matches r s n) = {n + k | k. k \<le> length s \<and> take k s \<in> lang r}"
proof (induction s arbitrary: r n)
  case Nil
  then show ?case by (auto simp add: nullable_lang)
next
  case (Cons c s)
  have "{n + k | k. k \<le> length (c # s) \<and> take k (c # s) \<in> lang r}
      = (if nullable r then {n} else {})
        \<union> {Suc n + k | k. k \<le> length s \<and> take k s \<in> lang (deriv c r)}"
    (is "?L = ?R")
  proof (rule set_eqI)
    fix m
    show "m \<in> ?L \<longleftrightarrow> m \<in> ?R"
    proof
      assume "m \<in> ?L"
      then obtain k where k: "m = n + k" "k \<le> length (c # s)" "take k (c # s) \<in> lang r"
        by blast
      show "m \<in> ?R"
      proof (cases k)
        case 0
        with k show ?thesis by (simp add: nullable_lang)
      next
        case (Suc j)
        with k have "Suc n + j = m" "j \<le> length s" "take j s \<in> lang (deriv c r)"
          by (simp_all add: deriv_lang)
        then show ?thesis by blast
      qed
    next
      assume "m \<in> ?R"
      then consider "nullable r" "m = n"
        | j where "m = Suc n + j" "j \<le> length s" "take j s \<in> lang (deriv c r)"
        by (auto split: if_splits)
      then show "m \<in> ?L"
      proof cases
        case 1
        then have "m = n + 0" "0 \<le> length (c # s)" "take 0 (c # s) \<in> lang r"
          by (simp_all add: nullable_lang)
        then show ?thesis by blast
      next
        case 2
        then have "m = n + Suc j" "Suc j \<le> length (c # s)" "take (Suc j) (c # s) \<in> lang r"
          by (simp_all add: deriv_lang)
        then show ?thesis by blast
      qed
    qed
  qed
  with Cons show ?case by auto
qed

lemma longest_match_Some_iff:
  "longest_match eol r s \<noteq> None \<longleftrightarrow>
     (\<exists>k\<le>length s. take k s \<in> lang r \<and> (eol \<longrightarrow> k = length s))"
proof -
  have "longest_match eol r s \<noteq> None \<longleftrightarrow>
      (\<exists>m\<in>set (prefix_matches r s 0). \<not> eol \<or> m = length s)"
    by (auto simp add: longest_match_def Let_def filter_empty_conv)
  then show ?thesis
    by (auto simp add: prefix_matches_set)
qed

lemma match_here_iff:
  "longest_match eol r s \<noteq> None \<longleftrightarrow>
     (\<exists>mid post. s = mid @ post \<and> mid \<in> lang r \<and> (eol \<longrightarrow> post = []))"
proof
  assume "longest_match eol r s \<noteq> None"
  then obtain k where "k \<le> length s" "take k s \<in> lang r" "eol \<longrightarrow> k = length s"
    unfolding longest_match_Some_iff by blast
  then have "s = take k s @ drop k s \<and> take k s \<in> lang r \<and> (eol \<longrightarrow> drop k s = [])"
    by simp
  then show "\<exists>mid post. s = mid @ post \<and> mid \<in> lang r \<and> (eol \<longrightarrow> post = [])"
    by blast
next
  assume "\<exists>mid post. s = mid @ post \<and> mid \<in> lang r \<and> (eol \<longrightarrow> post = [])"
  then obtain mid post where m: "s = mid @ post" "mid \<in> lang r" "eol \<longrightarrow> post = []"
    by blast
  then have "length mid \<le> length s" "take (length mid) s \<in> lang r"
    "eol \<longrightarrow> length mid = length s"
    by (auto simp add: m(1))
  then show "longest_match eol r s \<noteq> None"
    unfolding longest_match_Some_iff by blast
qed

lemma search_iff:
  "search eol r l \<longleftrightarrow>
     (\<exists>pre mid post. l = pre @ mid @ post \<and> mid \<in> lang r \<and> (eol \<longrightarrow> post = []))"
proof (induction l)
  case Nil
  show ?case
    unfolding search.simps match_here_iff by auto
next
  case (Cons c l)
  show ?case
  proof
    assume "search eol r (c # l)"
    then consider "longest_match eol r (c # l) \<noteq> None" | "search eol r l"
      by auto
    then show "\<exists>pre mid post. c # l = pre @ mid @ post \<and> mid \<in> lang r \<and> (eol \<longrightarrow> post = [])"
    proof cases
      case 1
      then obtain mid post where "c # l = [] @ mid @ post" "mid \<in> lang r" "eol \<longrightarrow> post = []"
        unfolding match_here_iff by auto
      then show ?thesis by blast
    next
      case 2
      with Cons obtain pre mid post where "l = pre @ mid @ post" "mid \<in> lang r" "eol \<longrightarrow> post = []"
        by blast
      then have "c # l = (c # pre) @ mid @ post" "mid \<in> lang r" "eol \<longrightarrow> post = []"
        by simp_all
      then show ?thesis by blast
    qed
  next
    assume "\<exists>pre mid post. c # l = pre @ mid @ post \<and> mid \<in> lang r \<and> (eol \<longrightarrow> post = [])"
    then obtain pre mid post where m: "c # l = pre @ mid @ post" "mid \<in> lang r" "eol \<longrightarrow> post = []"
      by blast
    show "search eol r (c # l)"
    proof (cases pre)
      case Nil
      with m have "longest_match eol r (c # l) \<noteq> None"
        unfolding match_here_iff by auto
      then show ?thesis by simp
    next
      case (Cons d pre')
      with m have "l = pre' @ mid @ post" by simp
      with m(2,3) have "search eol r l"
        unfolding Cons.IH by blast
      then show ?thesis by simp
    qed
  qed
qed

lemma replicate_in_star: "replicate k c \<in> star {[c]}"
proof (induction k)
  case 0
  then show ?case by (simp add: star_empty)
next
  case (Suc k)
  have "[c] @ replicate k c \<in> star {[c]}"
    by (rule star_more) (use Suc in simp_all)
  then show ?case by simp
qed

lemma star_Chr: "star {[c]} = {replicate k c | k. True}"
proof (rule set_eqI, rule iffI)
  fix w
  assume "w \<in> star {[c]}"
  then show "w \<in> {replicate k c | k. True}"
  proof (induction rule: star.induct)
    case star_empty
    have "[] = replicate 0 c" by simp
    then show ?case by blast
  next
    case (star_more u v)
    then obtain k where "v = replicate k c" by blast
    with star_more(1) have "u @ v = replicate (Suc k) c" by simp
    then show ?case by blast
  qed
next
  fix w
  assume "w \<in> {replicate k c | k. True}"
  then show "w \<in> star {[c]}"
    using replicate_in_star by auto
qed

lemma star_NotChr: "star {[d] | d. d \<noteq> c} = {w. c \<notin> set w}"
proof (rule set_eqI, rule iffI)
  fix w
  assume "w \<in> star {[d] | d. d \<noteq> c}"
  then show "w \<in> {w. c \<notin> set w}"
    by (induction rule: star.induct) auto
next
  fix w
  assume "w \<in> {w. c \<notin> set w}"
  then have "c \<notin> set w" by simp
  then show "w \<in> star {[d] | d. d \<noteq> c}"
  proof (induction w)
    case Nil
    then show ?case by (simp add: star_empty)
  next
    case (Cons d w)
    have "[d] @ w \<in> star {[d] | d. d \<noteq> c}"
      by (rule star_more) (use Cons in auto)
    then show ?case by simp
  qed
qed

lemma lang_Str: "lang (Str s) = {s}"
  by (induction s) auto

lemma lang_Plus_Chr: "lang (Plus (Chr c)) = {replicate (Suc k) c | k. True}"
  unfolding Plus_def by (auto simp add: star_Chr)

lemma lang_Opt_Str: "lang (Opt (Str s)) = {s, []}"
  unfolding Opt_def by (auto simp add: lang_Str)

lemma lang_bash_fence_re:
  "lang bash_fence_re =
     {replicate (Suc k) backtick @ ''bash'' @ x @ y | k x y.
        backtick \<notin> set x \<and> (y = '' -c'' \<or> y = [])}"
proof -
  have tail: "lang (Seq (Star (NotChr backtick)) (Opt (Str '' -c'')))
      = {x @ y | x y. backtick \<notin> set x \<and> (y = '' -c'' \<or> y = [])}"
    unfolding lang.simps(8) lang_Opt_Str lang.simps(9) lang.simps(4) star_NotChr by blast
  have mid: "lang (Seq (Str ''bash'') (Seq (Star (NotChr backtick)) (Opt (Str '' -c''))))
      = {''bash'' @ x @ y | x y. backtick \<notin> set x \<and> (y = '' -c'' \<or> y = [])}"
    unfolding lang.simps(8) [of "Str ''bash''"] tail lang_Str by blast
  show ?thesis
    unfolding bash_fence_re_def lang.simps(8) [of "Plus (Chr backtick)"] mid lang_Plus_Chr
    by blast
qed

text \<open>
  The address that opens a range holds of the lines in which a backtick is directly
  followed by \<open>bash\<close> and no backtick comes later.
\<close>

lemma bash_fence_iff:
  "bash_fence l \<longleftrightarrow>
     (\<exists>pre post. l = pre @ backtick # ''bash'' @ post \<and> backtick \<notin> set post)"
proof
  assume "bash_fence l"
  then obtain pre k x y where l: "l = pre @ replicate (Suc k) backtick @ ''bash'' @ x @ y"
    and x: "backtick \<notin> set x" and y: "y = '' -c'' \<or> y = []"
    unfolding bash_fence_def search_iff lang_bash_fence_re by auto
  have "l = (pre @ replicate k backtick) @ backtick # ''bash'' @ (x @ y)"
    unfolding l by (simp add: replicate_append_same)
  moreover have "backtick \<notin> set (x @ y)"
    using x y by auto
  ultimately show "\<exists>pre post. l = pre @ backtick # ''bash'' @ post \<and> backtick \<notin> set post"
    by blast
next
  assume "\<exists>pre post. l = pre @ backtick # ''bash'' @ post \<and> backtick \<notin> set post"
  then obtain pre post where l: "l = pre @ backtick # ''bash'' @ post" and p: "backtick \<notin> set post"
    by blast
  have "replicate (Suc 0) backtick @ ''bash'' @ post @ [] \<in> lang bash_fence_re"
    unfolding lang_bash_fence_re using p by blast
  moreover have "l = pre @ (replicate (Suc 0) backtick @ ''bash'' @ post @ []) @ []"
    unfolding l by simp
  ultimately show "bash_fence l"
    unfolding bash_fence_def search_iff by blast
qed

section \<open>Properties of the output extractors\<close>

lemma sed_range_none: "\<forall>l\<in>set ls. \<not> a l \<Longrightarrow> sed_range a b False ls = []"
  by (induction ls) simp_all

lemma sed_range_head: "head1 (sed_range a b False ls) = take 1 (filter a ls)"
  by (induction ls) (simp_all add: head1_def)

lemma lines_from_no_newline:
  "l \<in> set (lines_from acc s) \<Longrightarrow> CHR 0x0A \<notin> set acc \<Longrightarrow> CHR 0x0A \<notin> set l"
proof (induction s arbitrary: acc)
  case Nil
  then show ?case by (auto split: if_splits)
next
  case (Cons c s)
  show ?case
  proof (cases "c = CHR 0x0A")
    case True
    with Cons.prems have "l = rev acc \<or> l \<in> set (lines_from [] s)"
      by simp
    then show ?thesis
    proof
      assume "l = rev acc"
      with Cons.prems(2) show ?thesis by simp
    next
      assume "l \<in> set (lines_from [] s)"
      then show ?thesis by (rule Cons.IH) simp
    qed
  next
    case False
    with Cons.prems have "l \<in> set (lines_from (c # acc) s)" "CHR 0x0A \<notin> set (c # acc)"
      by auto
    then show ?thesis by (rule Cons.IH)
  qed
qed

lemma lines_of_no_newline: "l \<in> set (lines_of s) \<Longrightarrow> CHR 0x0A \<notin> set l"
  unfolding lines_of_def using lines_from_no_newline [of l "[]" s] by simp

lemma lines_from_line:
  "CHR 0x0A \<notin> set l \<Longrightarrow> lines_from acc (l @ [CHR 0x0A]) = [rev acc @ l]"
  by (induction l arbitrary: acc) auto

lemma capture_line:
  assumes "l \<noteq> []" and "CHR 0x0A \<notin> set l"
  shows "capture (l @ [CHR 0x0A]) = l"
proof -
  from assms have "rev l \<noteq> []" "hd (rev l) \<noteq> CHR 0x0A"
    by (simp, metis hd_rev last_in_set)
  then have "dropWhile (\<lambda>c. c = CHR 0x0A) (rev l) = rev l"
    by (cases "rev l") simp_all
  then show ?thesis
    by (simp add: capture_def)
qed

lemma echo_option_chars:
  assumes "echo_option x"
  shows "set x \<subseteq> set ''-neE''"
proof (cases x)
  case Nil
  then show ?thesis by simp
next
  case (Cons c cs)
  with assms have "c = CHR ''-''" and "\<forall>d\<in>set cs. d \<in> set ''neE''"
    by (simp_all add: echo_option_def list_all_iff)
  then have "set cs \<subseteq> set ''neE''" and "c \<in> set ''-neE''"
    by (blast, simp)
  then show ?thesis
    unfolding Cons by auto
qed

lemma echo_plain:
  assumes "backtick \<in> set x"
  shows "echo x = x @ [CHR 0x0A]"
proof -
  have "backtick \<notin> set ''-neE''"
    by simp
  with assms echo_option_chars [of x] have "\<not> echo_option x"
    by blast
  then show ?thesis
    by (simp add: echo_def)
qed

lemma bash_fence_backtick: "bash_fence l \<Longrightarrow> backtick \<in> set l"
  unfolding bash_fence_iff by auto

text \<open>
  Whenever some line opens a block tagged bash, the primary extractor prints the first
  such line, the opening fence itself, trimmed; the lines of the block are not printed.
\<close>

lemma parse_first_prints_fence_line:
  assumes "filter bash_fence (lines_of (echo markdown_text)) = l # rest"
  shows "parse_first_markdown rd markdown_text = trim_block l @ [CHR 0x0A]"
proof -
  have "l \<in> set (filter bash_fence (lines_of (echo markdown_text)))"
    unfolding assms by simp
  then have fence: "bash_fence l" and line: "l \<in> set (lines_of (echo markdown_text))"
    by simp_all
  from fence have bt: "backtick \<in> set l"
    by (rule bash_fence_backtick)
  then have ne: "l \<noteq> []"
    by auto
  from line have nl: "CHR 0x0A \<notin> set l"
    by (rule lines_of_no_newline)
  have "capture (unlines (head1
      (sed_range bash_fence has_backtick False (lines_of (echo markdown_text))))) = l"
    unfolding sed_range_head assms using capture_line [OF ne nl]
    by (simp add: unlines_def)
  moreover have "lines_of (echo l) = [l]"
    unfolding echo_plain [OF bt] lines_of_def using lines_from_line [OF nl, of "[]"]
    by simp
  ultimately show ?thesis
    using ne by (simp add: parse_first_markdown_def Let_def unlines_def)
qed

text \<open>
  C5. On the input of scenario A the primary extractor prints the opening fence line
  \<open>```bash\<close>, under both readings of the shell text; the text captured from it is
  that line and not \<open>ls -la\<close>.
\<close>

theorem parse_first_scenario_A:
  "parse_first_markdown rd ''Run this:\<newline>```bash\<newline>ls -la\<newline>```\<newline>Done.'' = ''```bash\<newline>''
   \<and> capture (parse_first_markdown rd ''Run this:\<newline>```bash\<newline>ls -la\<newline>```\<newline>Done.'') = ''```bash''
   \<and> capture (parse_first_markdown rd ''Run this:\<newline>```bash\<newline>ls -la\<newline>```\<newline>Done.'') \<noteq> ''ls -la''"
  by (induct rd; code_simp)

text \<open>
  C6. On the input of scenario B, which holds no backtick, the fallback does not cut the
  text at its first line break. As the shell text is written, both lines are printed;
  as it is installed, an empty line is printed. Under neither reading is the captured
  result \<open>echo hello\<close>.
\<close>

theorem parse_first_scenario_B:
  "parse_first_markdown Written ''echo hello\<newline>and then more text''
     = ''echo hello\<newline>and then more text\<newline>''
   \<and> parse_first_markdown Installed ''echo hello\<newline>and then more text'' = ''\<newline>''
   \<and> capture (parse_first_markdown rd ''echo hello\<newline>and then more text'') \<noteq> ''echo hello''"
  by (induct rd; code_simp)

text \<open>
  C7. On an input with two blocks tagged bash the fix-mode extractor does not keep to
  what follows the last fence: as the shell text is written it prints the lines of
  both blocks joined, \<open>foobar\<close>, and as it is installed it prints nothing; under
  neither reading the result is \<open>bar\<close>. On the input of scenario C the text as
  written gives \<open>fixed --flag valuemore line\<close>, and the installed text gives nothing.
\<close>

theorem parse_last_two_blocks:
  "parse_last_markdown Written ''```bash\<newline>foo\<newline>```\<newline>text\<newline>```bash\<newline>bar\<newline>```'' = ''foobar''
   \<and> parse_last_markdown Installed ''```bash\<newline>foo\<newline>```\<newline>text\<newline>```bash\<newline>bar\<newline>```'' = []
   \<and> parse_last_markdown rd ''```bash\<newline>foo\<newline>```\<newline>text\<newline>```bash\<newline>bar\<newline>```'' \<noteq> ''bar''
   \<and> parse_last_markdown Written
        ''Explanation text\<newline>```bash -c\<newline>fixed --flag value\<newline>more line\<newline>```''
       = ''fixed --flag valuemore line''
   \<and> parse_last_markdown Installed
        ''Explanation text\<newline>```bash -c\<newline>fixed --flag value\<newline>more line\<newline>```''
       = []"
  by (induct rd; code_simp)

text \<open>
  C8 (as amended). When no line of the input opens a block tagged bash (no line holds a
  backtick directly followed by \<open>bash\<close> with no backtick after it), the fix-mode
  extractor prints nothing. The fix integration does not test that result: whenever
  the line buffer is not empty it assigns the result to the buffer, so with such an
  explanation the buffer becomes empty and the cursor goes to 0.
\<close>

theorem fix_without_fence:
  assumes "\<forall>l\<in>set (lines_of (echo text)). \<not> bash_fence l"
  shows "parse_last_markdown rd text = []
    \<and> (\<forall>out rl. capture out = text \<and> READLINE_LINE rl \<noteq> [] \<longrightarrow>
          sgpt_bash_fix rd out rl = rl\<lparr>READLINE_LINE := [], READLINE_POINT := 0\<rparr>)"
proof -
  have empty: "parse_last_markdown rd text = []"
    using assms by (simp add: parse_last_markdown_def sed_range_none unlines_def capture_def)
  then show ?thesis
    by (simp add: sgpt_bash_fix_def Let_def capture_def)
qed

theorem fix_without_fence_witness:
  "filter bash_fence (lines_of (echo ''Nothing to fix.'')) = []
   \<and> parse_last_markdown Written ''Nothing to fix.'' = []
   \<and> sgpt_bash_fix Written ''Nothing to fix.\<newline>'' \<lparr>READLINE_LINE = ''ls -z'', READLINE_POINT = 5\<rparr>
       = \<lparr>READLINE_LINE = [], READLINE_POINT = 0\<rparr>"
proof -
  have f: "filter bash_fence (lines_of (echo ''Nothing to fix.'')) = []"
    by code_simp
  then have h: "\<forall>l\<in>set (lines_of (echo ''Nothing to fix.'')). \<not> bash_fence l"
    by (simp only: filter_empty_conv)
  have c: "capture ''Nothing to fix.\<newline>'' = ''Nothing to fix.''"
    by code_simp
  from fix_without_fence [OF h, of Written] f c show ?thesis
    by simp
qed

text \<open>
  The claim as stated fails at its second part: the explanation holds no fence, the
  extractor gives the empty string, and the buffer \<open>ls -z\<close> is overwritten by it.
\<close>

theorem fix_overwrites_buffer_counterexample:
  "filter bash_fence (lines_of (echo (capture ''Nothing to fix.\<newline>''))) = []
   \<and> parse_last_markdown Written (capture ''Nothing to fix.\<newline>'') = []
   \<and> parse_last_markdown Installed (capture ''Nothing to fix.\<newline>'') = []
   \<and> sgpt_bash_fix Written ''Nothing to fix.\<newline>'' \<lparr>READLINE_LINE = ''ls -z'', READLINE_POINT = 5\<rparr>
       = \<lparr>READLINE_LINE = [], READLINE_POINT = 0\<rparr>
   \<and> sgpt_bash_fix Installed ''Nothing to fix.\<newline>'' \<lparr>READLINE_LINE = ''ls -z'', READLINE_POINT = 5\<rparr>
       = \<lparr>READLINE_LINE = [], READLINE_POINT = 0\<rparr>"
  by code_simp

end
